theory Spec2Isabelle
  imports Complex_Main "HOL-Library.Product_Order" "HOL-Library.Word"
begin

section \<open>Python dictionaries as insertion-ordered association lists\<close>

text \<open>
  A Python \<^verbatim>\<open>dict\<close> is an association list in insertion order. \<^verbatim>\<open>d[k] = v\<close>
  overwrites the value of an existing key in place and appends a new key at the end;
  \<^verbatim>\<open>d.get(k, dflt)\<close> returns the default for an absent key. A dictionary has each key
  once: \<open>distinct (map fst d)\<close>.
\<close>

type_synonym ('k, 'v) dict = "('k \<times> 'v) list"

primrec dict_set :: "'k \<Rightarrow> 'v \<Rightarrow> ('k, 'v) dict \<Rightarrow> ('k, 'v) dict" where
  "dict_set k v [] = [(k, v)]"
| "dict_set k v (p # ps) = (if fst p = k then (k, v) # ps else p # dict_set k v ps)"

definition dict_get :: "('k, 'v) dict \<Rightarrow> 'k \<Rightarrow> 'v \<Rightarrow> 'v" where
  "dict_get d k dflt = (case map_of d k of None \<Rightarrow> dflt | Some v \<Rightarrow> v)"

text \<open>A dictionary comprehension stores its pairs one after the other into a new dictionary.\<close>

definition dict_of_items :: "('k \<times> 'v) list \<Rightarrow> ('k, 'v) dict" where
  "dict_of_items ps = foldl (\<lambda>d (k, v). dict_set k v d) [] ps"

section \<open>Elements of the algebra\<close>

text \<open>
  The elements form a module over a commutative base ring; the checker uses their zero,
  addition, subtraction, truth value (\<open>v \<noteq> 0\<close>) and the product of a Python or Sage
  integer with an element. An integer acts on a module element by repeated addition.
\<close>

primrec nsmul :: "nat \<Rightarrow> 'a::ab_group_add \<Rightarrow> 'a" where
  "nsmul 0 v = 0"
| "nsmul (Suc n) v = v + nsmul n v"

definition zsmul :: "int \<Rightarrow> 'a::ab_group_add \<Rightarrow> 'a" where
  "zsmul i v = (if i < 0 then - nsmul (nat (- i)) v else nsmul (nat i) v)"

text \<open>
  Modelled from the spec: \<^verbatim>\<open>binomial\<close> is imported from \<^verbatim>\<open>sage.functions.other\<close>, which is
  not part of the sources at hand; the spec calls it the binomial coefficient \<open>C(n, r)\<close>.
\<close>

definition binomial_coeff :: "nat \<Rightarrow> nat \<Rightarrow> int" where
  "binomial_coeff n r = int (n choose r)"

text \<open>
  Modelled from the spec: \<^verbatim>\<open>some_tuples\<close> is imported from \<^verbatim>\<open>sage.misc.misc\<close>, which is
  not part of the sources at hand; the spec has it sample ordered triples of the elements
  up to a bound. Here: the first \<open>bound\<close> triples in lexicographic order.
\<close>

definition some_tuples :: "'a list \<Rightarrow> nat \<Rightarrow> ('a \<times> 'a \<times> 'a) list" where
  "some_tuples S bound =
     take bound (concat (map (\<lambda>x. concat (map (\<lambda>y. map (\<lambda>z. (x, y, z)) S) S)) S))"

datatype 'a error = ValueError | AssertionError "(nat \<times> nat, 'a) dict"

text \<open>
  What the checker asks of the algebra under test. \<open>bracket x y\<close> is \<^verbatim>\<open>x.bracket(y)\<close>,
  the dictionary of the \<open>n\<close>-th products; \<open>is_even_odd x\<close> is \<open>None\<close> where
  \<^verbatim>\<open>x.is_even_odd()\<close> raises \<^verbatim>\<open>ValueError\<close> (the element is not homogeneous).
\<close>

record 'a algebra =
  bracket :: "'a \<Rightarrow> 'a \<Rightarrow> (nat, 'a) dict"
  is_even_odd :: "'a \<Rightarrow> int option"
  is_with_basis :: bool
  even_component :: "'a \<Rightarrow> 'a"
  odd_component :: "'a \<Rightarrow> 'a"

section \<open>The statements of the loop body\<close>

text \<open>\<^verbatim>\<open>{k: x.bracket(v) for k,v in bryz.items()}\<close> and its two siblings.\<close>

definition bracket_left :: "'a algebra \<Rightarrow> 'a \<Rightarrow> (nat, 'a) dict \<Rightarrow> (nat, (nat, 'a) dict) dict" where
  "bracket_left A x d = dict_of_items (map (\<lambda>(k, v). (k, bracket A x v)) d)"

definition bracket_right :: "'a algebra \<Rightarrow> (nat, 'a) dict \<Rightarrow> 'a \<Rightarrow> (nat, (nat, 'a) dict) dict" where
  "bracket_right A d z = dict_of_items (map (\<lambda>(k, v). (k, bracket A v z)) d)"

text \<open>
  \<^verbatim>\<open>jac1 = {(j,k): v for k in br1 for j,v in br1[k].items()}\<close> and
  \<^verbatim>\<open>jac3 = {(k,j): v for k in br3 for j,v in br3[k].items()}\<close>: iterating the keys of a
  dictionary and indexing it with each is iterating its items.
\<close>

definition build_jac1 :: "(nat, (nat, 'a) dict) dict \<Rightarrow> (nat \<times> nat, 'a) dict" where
  "build_jac1 br1 = dict_of_items (concat (map (\<lambda>(k, br). map (\<lambda>(j, v). ((j, k), v)) br) br1))"

definition build_jac3 :: "(nat, (nat, 'a) dict) dict \<Rightarrow> (nat \<times> nat, 'a) dict" where
  "build_jac3 br3 = dict_of_items (concat (map (\<lambda>(k, br). map (\<lambda>(j, v). ((k, j), v)) br) br3))"

text \<open>
  The innermost statement of the \<^verbatim>\<open>jac2\<close> loops,
  \<^verbatim>\<open>jac2[(k+r, j-r)] = jac2.get((k+r, j-r), pz) + binomial(k+r, r)*v\<close>, and the three
  nested loops around it, from \<^verbatim>\<open>jac2 = {}\<close>.
\<close>

definition jac2_add :: "nat \<Rightarrow> nat \<Rightarrow> 'a::ab_group_add \<Rightarrow> (nat \<times> nat, 'a) dict \<Rightarrow> nat \<Rightarrow> (nat \<times> nat, 'a) dict" where
  "jac2_add k j v jac2 r =
     dict_set (k + r, j - r) (dict_get jac2 (k + r, j - r) 0 + zsmul (binomial_coeff (k + r) r) v) jac2"

definition build_jac2 :: "(nat, (nat, 'a::ab_group_add) dict) dict \<Rightarrow> (nat \<times> nat, 'a) dict" where
  "build_jac2 br2 =
     foldl (\<lambda>jac2 (k, br).
       foldl (\<lambda>jac2 (j, v). foldl (jac2_add k j v) jac2 [0..<j + 1]) jac2 br) [] br2"

text \<open>\<^verbatim>\<open>for k,v in jac.items(): jac1[k] = jac1.get(k, pz) - v\<close>\<close>

definition sub_items :: "(nat \<times> nat, 'a::ab_group_add) dict \<Rightarrow> (nat \<times> nat, 'a) dict \<Rightarrow> (nat \<times> nat, 'a) dict" where
  "sub_items jac1 jac = foldl (\<lambda>jac1 (k, v). dict_set k (dict_get jac1 k 0 - v) jac1) jac1 jac"

text \<open>\<^verbatim>\<open>for k,v in jac3.items(): jac1[k] = jac1.get(k, pz) - sgn*v\<close>\<close>

definition sub_items_sgn :: "int \<Rightarrow> (nat \<times> nat, 'a::ab_group_add) dict \<Rightarrow> (nat \<times> nat, 'a) dict \<Rightarrow> (nat \<times> nat, 'a) dict" where
  "sub_items_sgn s jac1 jac =
     foldl (\<lambda>jac1 (k, v). dict_set k (dict_get jac1 k 0 - zsmul s v) jac1) jac1 jac"

text \<open>\<^verbatim>\<open>{k: v for k,v in jac1.items() if v}\<close>: an element is true when it is not zero.\<close>

definition nonzero_items :: "(nat \<times> nat, 'a::ab_group_add) dict \<Rightarrow> (nat \<times> nat, 'a) dict" where
  "nonzero_items jac1 = filter (\<lambda>(k, v). v \<noteq> 0) jac1"

text \<open>\<^verbatim>\<open>tester.assertDictEqual(jacobiator, {})\<close>\<close>

definition assertDictEqual_empty :: "(nat \<times> nat, 'a) dict \<Rightarrow> 'a error + unit" where
  "assertDictEqual_empty jacobiator =
     (if jacobiator = [] then Inr () else Inl (AssertionError jacobiator))"

section \<open>The local variables and the two test methods\<close>

record 'a locals =
  sgn_var :: int
  brxy :: "(nat, 'a) dict"
  brxz :: "(nat, 'a) dict"
  bryz :: "(nat, 'a) dict"
  br1 :: "(nat, (nat, 'a) dict) dict"
  br2 :: "(nat, (nat, 'a) dict) dict"
  br3 :: "(nat, (nat, 'a) dict) dict"
  jac1 :: "(nat \<times> nat, 'a) dict"
  jac2 :: "(nat \<times> nat, 'a) dict"
  jac3 :: "(nat \<times> nat, 'a) dict"
  jacobiator :: "(nat \<times> nat, 'a) dict"

text \<open>The variables are unbound when a method is entered; each is assigned before it is read.\<close>

definition fresh_locals :: "'a locals" where
  "fresh_locals = \<lparr>sgn_var = 0, brxy = [], brxz = [], bryz = [], br1 = [], br2 = [], br3 = [],
     jac1 = [], jac2 = [], jac3 = [], jacobiator = []\<rparr>"

subsection \<open>\<^verbatim>\<open>LieConformalAlgebras.ParentMethods._test_jacobi\<close>\<close>

definition plain_body :: "'a::ab_group_add algebra \<Rightarrow> 'a \<Rightarrow> 'a \<Rightarrow> 'a \<Rightarrow> 'a locals \<Rightarrow> 'a locals" where
  "plain_body A x y z st0 =
     (let st = st0\<lparr>brxy := bracket A x y\<rparr>;
          st = st\<lparr>brxz := bracket A x z\<rparr>;
          st = st\<lparr>bryz := bracket A y z\<rparr>;
          st = st\<lparr>br1 := bracket_left A x (bryz st)\<rparr>;
          st = st\<lparr>br2 := bracket_right A (brxy st) z\<rparr>;
          st = st\<lparr>br3 := bracket_left A y (brxz st)\<rparr>;
          st = st\<lparr>jac1 := build_jac1 (br1 st)\<rparr>;
          st = st\<lparr>jac3 := build_jac3 (br3 st)\<rparr>;
          st = st\<lparr>jac2 := build_jac2 (br2 st)\<rparr>;
          st = st\<lparr>jac1 := sub_items (jac1 st) (jac2 st)\<rparr>;
          st = st\<lparr>jac1 := sub_items (jac1 st) (jac3 st)\<rparr>
      in st\<lparr>jacobiator := nonzero_items (jac1 st)\<rparr>)"

definition plain_step :: "'a::ab_group_add algebra \<Rightarrow> 'a locals \<Rightarrow> 'a \<times> 'a \<times> 'a \<Rightarrow> 'a error + 'a locals" where
  "plain_step A st0 t =
     (case t of (x, y, z) \<Rightarrow>
        (let st = plain_body A x y z st0
         in (case assertDictEqual_empty (jacobiator st) of Inl e \<Rightarrow> Inl e | Inr _ \<Rightarrow> Inr st)))"

primrec plain_loop :: "'a::ab_group_add algebra \<Rightarrow> 'a locals \<Rightarrow> ('a \<times> 'a \<times> 'a) list \<Rightarrow> 'a error + 'a locals" where
  "plain_loop A st [] = Inr st"
| "plain_loop A st (t # ts) =
     (case plain_step A st t of Inl e \<Rightarrow> Inl e | Inr st' \<Rightarrow> plain_loop A st' ts)"

definition plain_test_jacobi :: "'a::ab_group_add algebra \<Rightarrow> 'a list \<Rightarrow> nat \<Rightarrow> 'a error + unit" where
  "plain_test_jacobi A S max_runs =
     (case plain_loop A fresh_locals (some_tuples S max_runs) of
        Inl e \<Rightarrow> Inl e | Inr _ \<Rightarrow> Inr ())"

subsection \<open>\<^verbatim>\<open>LieConformalAlgebras.Super.ParentMethods._test_jacobi\<close>\<close>

text \<open>The loop that tries to avoid non-homogeneous elements; \<open>elements\<close> is its accumulator.\<close>

primrec split_elements :: "'a algebra \<Rightarrow> 'a list \<Rightarrow> 'a list \<Rightarrow> 'a list" where
  "split_elements A elements [] = elements"
| "split_elements A elements (s # S) =
     (case is_even_odd A s of
        None \<Rightarrow>
          if is_with_basis A
          then split_elements A (elements @ [even_component A s, odd_component A s]) S
          else split_elements A (elements @ [s]) S
      | Some _ \<Rightarrow> split_elements A (elements @ [s]) S)"

definition super_body :: "'a::ab_group_add algebra \<Rightarrow> 'a \<Rightarrow> 'a \<Rightarrow> 'a \<Rightarrow> int \<Rightarrow> int \<Rightarrow> 'a locals \<Rightarrow> 'a locals" where
  "super_body A x y z px py st0 =
     (let st = (if px * py \<noteq> 0 then st0\<lparr>sgn_var := - 1\<rparr> else st0\<lparr>sgn_var := 1\<rparr>);
          st = st\<lparr>brxy := bracket A x y\<rparr>;
          st = st\<lparr>brxz := bracket A x z\<rparr>;
          st = st\<lparr>bryz := bracket A y z\<rparr>;
          st = st\<lparr>br1 := bracket_left A x (bryz st)\<rparr>;
          st = st\<lparr>br2 := bracket_right A (brxy st) z\<rparr>;
          st = st\<lparr>br3 := bracket_left A y (brxz st)\<rparr>;
          st = st\<lparr>jac1 := build_jac1 (br1 st)\<rparr>;
          st = st\<lparr>jac3 := build_jac3 (br3 st)\<rparr>;
          st = st\<lparr>jac2 := build_jac2 (br2 st)\<rparr>;
          st = st\<lparr>jac1 := sub_items (jac1 st) (jac2 st)\<rparr>;
          st = st\<lparr>jac1 := sub_items_sgn (sgn_var st) (jac1 st) (jac3 st)\<rparr>
      in st\<lparr>jacobiator := nonzero_items (jac1 st)\<rparr>)"

definition super_step :: "'a::ab_group_add algebra \<Rightarrow> 'a locals \<Rightarrow> 'a \<times> 'a \<times> 'a \<Rightarrow> 'a error + 'a locals" where
  "super_step A st0 t =
     (case t of (x, y, z) \<Rightarrow>
        (case is_even_odd A x of None \<Rightarrow> Inl ValueError
         | Some px \<Rightarrow>
             (case is_even_odd A y of None \<Rightarrow> Inl ValueError
              | Some py \<Rightarrow>
                  (let st = super_body A x y z px py st0
                   in (case assertDictEqual_empty (jacobiator st) of
                         Inl e \<Rightarrow> Inl e | Inr _ \<Rightarrow> Inr st)))))"

primrec super_loop :: "'a::ab_group_add algebra \<Rightarrow> 'a locals \<Rightarrow> ('a \<times> 'a \<times> 'a) list \<Rightarrow> 'a error + 'a locals" where
  "super_loop A st [] = Inr st"
| "super_loop A st (t # ts) =
     (case super_step A st t of Inl e \<Rightarrow> Inl e | Inr st' \<Rightarrow> super_loop A st' ts)"

definition super_test_jacobi :: "'a::ab_group_add algebra \<Rightarrow> 'a list \<Rightarrow> nat \<Rightarrow> 'a error + unit" where
  "super_test_jacobi A S max_runs =
     (let S = split_elements A [] S
      in case super_loop A fresh_locals (some_tuples S max_runs) of
           Inl e \<Rightarrow> Inl e | Inr _ \<Rightarrow> Inr ())"

section \<open>Two concrete algebras\<close>

text \<open>
  Modelled from the spec: the construction
  \<^verbatim>\<open>LieConformalAlgebra(QQ, wrongdict, names=('a', 'b'), parity=(1, 0))\<close> of the doctest is
  not part of the sources at hand. Its elements are here the rational combinations
  \<open>(c\<^sub>a, c\<^sub>b)\<close> of the two generators. The fixture gives \<open>bracket(a, a) = {0: b}\<close> and
  \<open>bracket(b, a) = {0: a}\<close>; \<open>bracket(a, b) = {0: -a}\<close> is the skew-symmetric partner
  of the latter, \<open>bracket(b, b)\<close> is empty, and the bracket is bilinear. A product that is
  zero has no entry. The generator \<open>a\<close> is odd and \<open>b\<close> is even.
\<close>

definition gen_a :: "rat \<times> rat" where
  "gen_a = (1, 0)"

definition gen_b :: "rat \<times> rat" where
  "gen_b = (0, 1)"

definition wrong_bracket :: "rat \<times> rat \<Rightarrow> rat \<times> rat \<Rightarrow> (nat, rat \<times> rat) dict" where
  "wrong_bracket u w =
     (let v = (snd u * fst w - fst u * snd w, fst u * fst w)
      in if v = 0 then [] else [(0, v)])"

definition wrong_algebra :: "(rat \<times> rat) algebra" where
  "wrong_algebra =
     \<lparr>bracket = wrong_bracket,
      is_even_odd = (\<lambda>u. if fst u = 0 then Some 0 else if snd u = 0 then Some 1 else None),
      is_with_basis = True,
      even_component = (\<lambda>u. (0, snd u)),
      odd_component = (\<lambda>u. (fst u, 0))\<rparr>"

text \<open>
  An algebra over the field with two elements: one generator \<open>e = 1\<close> with
  \<open>bracket(e, e) = {0: e}\<close>, every element of parity \<open>p\<close>.
\<close>

definition char2_algebra :: "int \<Rightarrow> (1 word) algebra" where
  "char2_algebra p =
     \<lparr>bracket = (\<lambda>u w. [(0, u * w)]),
      is_even_odd = (\<lambda>u. Some p),
      is_with_basis = False,
      even_component = (\<lambda>u. u),
      odd_component = (\<lambda>u. u)\<rparr>"

section \<open>Dictionaries: lookup after a store\<close>

lemma map_of_dict_set: "map_of (dict_set k v d) = (map_of d)(k \<mapsto> v)"
  by (induction d) (auto simp: fun_eq_iff)

lemma keys_dict_set: "fst ` set (dict_set k v d) = insert k (fst ` set d)"
  by (induction d) auto

lemma distinct_dict_set: "distinct (map fst d) \<Longrightarrow> distinct (map fst (dict_set k v d))"
  by (induction d) (auto simp: keys_dict_set)

lemma dict_get_dict_set:
  "dict_get (dict_set k v d) k' dflt = (if k' = k then v else dict_get d k' dflt)"
  by (simp add: dict_get_def map_of_dict_set)

lemma dict_set_fresh: "k \<notin> fst ` set d \<Longrightarrow> dict_set k v d = d @ [(k, v)]"
  by (induction d) auto

section \<open>The accumulation loops of \<^verbatim>\<open>jac2\<close>\<close>

lemma jac2_r_get:
  "dict_get (foldl (jac2_add k j v) d rs) q 0 =
     dict_get d q 0 + (\<Sum>r\<leftarrow>rs. if (k + r, j - r) = q then zsmul (binomial_coeff (k + r) r) v else 0)"
  by (induction rs arbitrary: d) (auto simp: jac2_add_def dict_get_dict_set algebra_simps)

lemma jac2_j_get:
  "dict_get (foldl (\<lambda>jac2 (j, v). foldl (jac2_add k j v) jac2 [0..<j + 1]) d br) q 0 =
     dict_get d q 0 +
     sum_list (map (\<lambda>(j, v). \<Sum>r\<leftarrow>[0..<j + 1].
        if (k + r, j - r) = q then zsmul (binomial_coeff (k + r) r) v else 0) br)"
proof (induction br arbitrary: d)
  case Nil
  show ?case by simp
next
  case (Cons p br)
  obtain j v where p: "p = (j, v)" by (cases p)
  show ?case
    unfolding p by (simp only: foldl_Cons case_prod_conv Cons.IH jac2_r_get list.map sum_list.Cons add.assoc)
qed

lemma jac2_k_get:
  "dict_get (foldl (\<lambda>jac2 (k, br).
       foldl (\<lambda>jac2 (j, v). foldl (jac2_add k j v) jac2 [0..<j + 1]) jac2 br) d brs) q 0 =
     dict_get d q 0 +
     sum_list (map (\<lambda>(k, br). sum_list (map (\<lambda>(j, v). \<Sum>r\<leftarrow>[0..<j + 1].
        if (k + r, j - r) = q then zsmul (binomial_coeff (k + r) r) v else 0) br)) brs)"
proof (induction brs arbitrary: d)
  case Nil
  show ?case by simp
next
  case (Cons p brs)
  obtain k br where p: "p = (k, br)" by (cases p)
  show ?case
    unfolding p by (simp only: foldl_Cons case_prod_conv Cons.IH jac2_j_get list.map sum_list.Cons add.assoc)
qed

lemma jac2_r_keys:
  "fst ` set (foldl (jac2_add k j v) d rs) = fst ` set d \<union> (\<lambda>r. (k + r, j - r)) ` set rs"
  by (induction rs arbitrary: d) (auto simp: jac2_add_def keys_dict_set)

lemma jac2_j_keys:
  "fst ` set (foldl (\<lambda>jac2 (j, v). foldl (jac2_add k j v) jac2 [0..<j + 1]) d br) =
     fst ` set d \<union> (\<Union>(j, v) \<in> set br. (\<lambda>r. (k + r, j - r)) ` {0..<j + 1})"
proof (induction br arbitrary: d)
  case Nil
  show ?case by simp
next
  case (Cons p br)
  obtain j v where p: "p = (j, v)" by (cases p)
  have "fst ` set (foldl (\<lambda>jac2 (j, v). foldl (jac2_add k j v) jac2 [0..<j + 1]) d (p # br)) =
      (fst ` set d \<union> (\<lambda>r. (k + r, j - r)) ` set [0..<j + 1]) \<union>
        (\<Union>(j, v) \<in> set br. (\<lambda>r. (k + r, j - r)) ` {0..<j + 1})"
    unfolding p by (simp only: foldl_Cons case_prod_conv Cons.IH jac2_r_keys)
  also have "\<dots> = fst ` set d \<union>
      (\<Union>(j, v) \<in> set (p # br). (\<lambda>r. (k + r, j - r)) ` {0..<j + 1})"
    unfolding p by (simp only: set_upt list.set UN_insert case_prod_conv Un_assoc)
  finally show ?case .
qed

lemma jac2_k_keys:
  "fst ` set (foldl (\<lambda>jac2 (k, br).
       foldl (\<lambda>jac2 (j, v). foldl (jac2_add k j v) jac2 [0..<j + 1]) jac2 br) d brs) =
     fst ` set d \<union>
     (\<Union>(k, br) \<in> set brs. \<Union>(j, v) \<in> set br. (\<lambda>r. (k + r, j - r)) ` {0..<j + 1})"
proof (induction brs arbitrary: d)
  case Nil
  show ?case by simp
next
  case (Cons p brs)
  obtain k br where p: "p = (k, br)" by (cases p)
  have "fst ` set (foldl (\<lambda>jac2 (k, br).
       foldl (\<lambda>jac2 (j, v). foldl (jac2_add k j v) jac2 [0..<j + 1]) jac2 br) d (p # brs)) =
      (fst ` set d \<union> (\<Union>(j, v) \<in> set br. (\<lambda>r. (k + r, j - r)) ` {0..<j + 1})) \<union>
       (\<Union>(k, br) \<in> set brs. \<Union>(j, v) \<in> set br. (\<lambda>r. (k + r, j - r)) ` {0..<j + 1})"
    unfolding p by (simp only: foldl_Cons case_prod_conv Cons.IH jac2_j_keys)
  also have "\<dots> = fst ` set d \<union>
     (\<Union>(k, br) \<in> set (p # brs). \<Union>(j, v) \<in> set br. (\<lambda>r. (k + r, j - r)) ` {0..<j + 1})"
    unfolding p by (simp only: set_upt list.set UN_insert case_prod_conv Un_assoc)
  finally show ?case .
qed

lemma zsmul_1: "zsmul 1 v = v"
  by (simp add: zsmul_def)

lemma zsmul_0_right: "zsmul i 0 = 0"
proof -
  have "nsmul n (0::'a) = 0" for n by (induction n) simp_all
  then show ?thesis by (simp add: zsmul_def)
qed

lemma zsmul_m1: "zsmul (- 1) v = - v"
  by (simp add: zsmul_def)


section \<open>The binomial redistribution into \<^verbatim>\<open>jac2\<close>\<close>

text \<open>
  Claim C1. The loops that build \<^verbatim>\<open>jac2\<close> add, for every item \<open>(k, br)\<close> of \<^verbatim>\<open>br2\<close>,
  every item \<open>(j, v)\<close> of \<open>br\<close> and every \<open>r\<close> from \<open>0\<close> to \<open>j\<close>, the value
  \<open>C(k + r, r) \<cdot> v\<close> to the entry at \<open>(k + r, j - r)\<close>, an absent entry counting as zero, and
  add nothing else: the entry at a key is the sum of exactly these values, and a key is
  present exactly when some \<open>(k, j, r)\<close> leads to it. For \<open>k = 2\<close>, \<open>j = 1\<close> the result has
  the two keys \<open>(2, 1)\<close> and \<open>(3, 0)\<close>, with \<open>C(2, 0) = 1\<close> and \<open>C(3, 1) = 3\<close> times the value.
\<close>

theorem jac2_accumulates:
  "dict_get (build_jac2 brs) (p, q) 0 =
     sum_list (map (\<lambda>(k, br). sum_list (map (\<lambda>(j, v). \<Sum>r\<leftarrow>[0..<j + 1].
        if (k + r, j - r) = (p, q) then zsmul (binomial_coeff (k + r) r) v else 0) br)) brs)
   \<and> ((p, q) \<in> fst ` set (build_jac2 brs) \<longleftrightarrow>
        (\<exists>(k, br) \<in> set brs. \<exists>(j, v) \<in> set br. \<exists>r \<le> j. (p, q) = (k + r, j - r)))
   \<and> build_jac2 [(2, [(1, w)])] =
        [((2, 1), zsmul (binomial_coeff 2 0) w), ((3, 0), zsmul (binomial_coeff 3 1) w)]
   \<and> binomial_coeff 2 0 = 1 \<and> binomial_coeff 3 1 = 3"
proof (intro conjI)
  show "dict_get (build_jac2 brs) (p, q) 0 =
     sum_list (map (\<lambda>(k, br). sum_list (map (\<lambda>(j, v). \<Sum>r\<leftarrow>[0..<j + 1].
        if (k + r, j - r) = (p, q) then zsmul (binomial_coeff (k + r) r) v else 0) br)) brs)"
    unfolding build_jac2_def jac2_k_get by (simp add: dict_get_def)
  show "(p, q) \<in> fst ` set (build_jac2 brs) \<longleftrightarrow>
     (\<exists>(k, br) \<in> set brs. \<exists>(j, v) \<in> set br. \<exists>r \<le> j. (p, q) = (k + r, j - r))"
    unfolding build_jac2_def jac2_k_keys by (auto simp: less_Suc_eq_le) (force simp: less_Suc_eq_le)+
  show "build_jac2 [(2, [(1, w)])] =
      [((2, 1), zsmul (binomial_coeff 2 0) w), ((3, 0), zsmul (binomial_coeff 3 1) w)]"
    by (simp add: build_jac2_def jac2_add_def dict_get_def upt_rec)
  show "binomial_coeff 2 0 = 1" and "binomial_coeff 3 1 = 3"
    by (simp_all add: binomial_coeff_def)
qed

theorem jac2_accumulates_witness:
  "dict_get (build_jac2 [(2, [(1, 5 :: int)])]) (3, 0) 0 = 15
   \<and> (3, 0) \<in> fst ` set (build_jac2 [(2, [(1, 5 :: int)])])
   \<and> build_jac2 [(2, [(1, 5 :: int)])] = [((2, 1), 5), ((3, 0), 15)]"
  using jac2_accumulates [where brs = "[(2, [(1, 5 :: int)])]" and p = 3 and q = 0 and w = "5 :: int"]
  by (simp add: zsmul_def binomial_coeff_def dict_get_def eval_nat_numeral)

section \<open>Dictionaries built by stores have each key once\<close>

lemma dict_get_absent: "k \<notin> fst ` set d \<Longrightarrow> dict_get d k dflt = dflt"
  by (simp add: dict_get_def map_of_eq_None_iff[THEN iffD2])

lemma foldl_dict_set_distinct:
  "distinct (map fst d) \<Longrightarrow> distinct (map fst (foldl (\<lambda>d (k, v). dict_set k v d) d ps))"
  by (induction ps arbitrary: d) (auto simp: distinct_dict_set)

lemma foldl_dict_set_fresh:
  "distinct (map fst (d @ ps)) \<Longrightarrow> foldl (\<lambda>d (k, v). dict_set k v d) d ps = d @ ps"
proof (induction ps arbitrary: d)
  case Nil
  show ?case by simp
next
  case (Cons p ps)
  obtain k v where p: "p = (k, v)" by (cases p)
  from Cons.prems have fresh: "k \<notin> fst ` set d" and d: "distinct (map fst ((d @ [(k, v)]) @ ps))"
    unfolding p by auto
  show ?case
    unfolding p using Cons.IH[OF d] by (simp add: dict_set_fresh[OF fresh])
qed

lemma distinct_dict_of_items: "distinct (map fst (dict_of_items ps))"
  unfolding dict_of_items_def by (rule foldl_dict_set_distinct) simp

lemma dict_of_items_id: "distinct (map fst ps) \<Longrightarrow> dict_of_items ps = ps"
  unfolding dict_of_items_def using foldl_dict_set_fresh[of "[]" ps] by simp

lemma sub_fold_get:
  fixes f :: "'a::ab_group_add \<Rightarrow> 'a"
  assumes f0: "f 0 = 0"
  shows "distinct (map fst d2) \<Longrightarrow>
    dict_get (foldl (\<lambda>d (k, v). dict_set k (dict_get d k 0 - f v) d) d1 d2) q 0 =
      dict_get d1 q 0 - f (dict_get d2 q 0)"
proof (induction d2 arbitrary: d1)
  case Nil
  show ?case by (simp add: f0 dict_get_def)
next
  case (Cons p d2)
  obtain k v where p: "p = (k, v)" by (cases p)
  from Cons.prems have fresh: "k \<notin> fst ` set d2" and d: "distinct (map fst d2)"
    unfolding p by auto
  have absent: "dict_get d2 k 0 = 0" by (rule dict_get_absent[OF fresh])
  have step: "dict_get (foldl (\<lambda>d (k, v). dict_set k (dict_get d k 0 - f v) d) d1 (p # d2)) q 0 =
      dict_get (dict_set k (dict_get d1 k 0 - f v) d1) q 0 - f (dict_get d2 q 0)"
    unfolding p by (simp only: foldl_Cons case_prod_conv Cons.IH[OF d])
  have hd: "dict_get (p # d2) q 0 = (if q = k then v else dict_get d2 q 0)"
    unfolding p by (simp add: dict_get_def)
  show ?case
    unfolding step hd using absent by (simp add: dict_get_dict_set f0)
qed

lemma sub_fold_distinct:
  "distinct (map fst d1) \<Longrightarrow>
    distinct (map fst (foldl (\<lambda>d (k, v). dict_set k (g d k v) d) d1 d2))"
  by (induction d2 arbitrary: d1) (auto simp: distinct_dict_set)

lemma sub_items_get:
  "distinct (map fst d2) \<Longrightarrow> dict_get (sub_items d1 d2) q 0 = dict_get d1 q 0 - dict_get d2 q 0"
  unfolding sub_items_def using sub_fold_get[of "\<lambda>v. v" d2 d1 q] by simp

lemma sub_items_sgn_get:
  "distinct (map fst d2) \<Longrightarrow>
     dict_get (sub_items_sgn s d1 d2) q 0 = dict_get d1 q 0 - zsmul s (dict_get d2 q 0)"
  unfolding sub_items_sgn_def using sub_fold_get[of "zsmul s" d2 d1 q] by (simp add: zsmul_0_right)

lemma distinct_sub_items: "distinct (map fst d1) \<Longrightarrow> distinct (map fst (sub_items d1 d2))"
  unfolding sub_items_def by (rule sub_fold_distinct[of d1 "\<lambda>d k v. dict_get d k 0 - v"])

lemma distinct_sub_items_sgn:
  "distinct (map fst d1) \<Longrightarrow> distinct (map fst (sub_items_sgn s d1 d2))"
  unfolding sub_items_sgn_def by (rule sub_fold_distinct[of d1 "\<lambda>d k v. dict_get d k 0 - zsmul s v"])

lemma sub_items_sgn_1: "sub_items_sgn 1 d1 d2 = sub_items d1 d2"
  by (simp add: sub_items_sgn_def sub_items_def zsmul_1)

lemma distinct_build_jac1: "distinct (map fst (build_jac1 b))"
  unfolding build_jac1_def by (rule distinct_dict_of_items)

lemma distinct_build_jac3: "distinct (map fst (build_jac3 b))"
  unfolding build_jac3_def by (rule distinct_dict_of_items)

lemma jac2_r_distinct:
  "distinct (map fst d) \<Longrightarrow> distinct (map fst (foldl (jac2_add k j v) d rs))"
  by (induction rs arbitrary: d) (auto simp: jac2_add_def distinct_dict_set)

lemma jac2_j_distinct:
  "distinct (map fst d) \<Longrightarrow>
     distinct (map fst (foldl (\<lambda>jac2 (j, v). foldl (jac2_add k j v) jac2 [0..<j + 1]) d br))"
proof (induction br arbitrary: d)
  case Nil
  then show ?case by simp
next
  case (Cons p br)
  obtain j v where p: "p = (j, v)" by (cases p)
  show ?case
    unfolding p by (simp only: foldl_Cons case_prod_conv) (rule Cons.IH[OF jac2_r_distinct[OF Cons.prems]])
qed

lemma jac2_k_distinct:
  "distinct (map fst d) \<Longrightarrow> distinct (map fst (foldl (\<lambda>jac2 (k, br).
       foldl (\<lambda>jac2 (j, v). foldl (jac2_add k j v) jac2 [0..<j + 1]) jac2 br) d b))"
proof (induction b arbitrary: d)
  case Nil
  then show ?case by simp
next
  case (Cons p b)
  obtain k br where p: "p = (k, br)" by (cases p)
  show ?case
    unfolding p by (simp only: foldl_Cons case_prod_conv) (rule Cons.IH[OF jac2_j_distinct[OF Cons.prems]])
qed

lemma distinct_build_jac2: "distinct (map fst (build_jac2 b))"
  unfolding build_jac2_def by (rule jac2_k_distinct) simp

lemma nonzero_items_get:
  "distinct (map fst d) \<Longrightarrow> dict_get (nonzero_items d) q 0 = dict_get d q 0"
proof (induction d)
  case Nil
  show ?case by (simp add: nonzero_items_def)
next
  case (Cons p d)
  obtain k v where p: "p = (k, v)" by (cases p)
  from Cons.prems have fresh: "k \<notin> fst ` set d" and d: "distinct (map fst d)"
    unfolding p by auto
  have sub: "fst ` set (nonzero_items d) \<subseteq> fst ` set d"
    by (auto simp: nonzero_items_def)
  from fresh sub have fresh': "k \<notin> fst ` set (nonzero_items d)" by blast
  have tail: "nonzero_items (p # d) = (if v \<noteq> 0 then p # nonzero_items d else nonzero_items d)"
    unfolding p by (simp add: nonzero_items_def)
  show ?case
  proof (cases "q = k")
    case True
    show ?thesis
      unfolding tail True using dict_get_absent[OF fresh', of 0]
      by (simp add: p dict_get_def)
  next
    case False
    have "dict_get (p # d) q 0 = dict_get d q 0" "dict_get (p # nonzero_items d) q 0 = dict_get (nonzero_items d) q 0"
      using False unfolding p by (simp_all add: dict_get_def)
    then show ?thesis unfolding tail using Cons.IH[OF d] by simp
  qed
qed

lemma nonzero_items_empty: "nonzero_items d = [] \<longleftrightarrow> (\<forall>(k, v) \<in> set d. v = 0)"
  by (auto simp: nonzero_items_def filter_empty_conv)

lemma jacobiator_plain_body: "jacobiator (plain_body A x y z st) = nonzero_items (jac1 (plain_body A x y z st))"
  by (simp add: plain_body_def Let_def)

lemma jacobiator_super_body:
  "jacobiator (super_body A x y z px py st) = nonzero_items (jac1 (super_body A x y z px py st))"
  by (simp add: super_body_def Let_def)

lemma split_elements_acc: "split_elements A acc S = acc @ split_elements A [] S"
proof (induction S arbitrary: acc)
  case Nil
  show ?case by simp
next
  case (Cons s S)
  show ?case
    by (simp add: Cons.IH[of "acc @ _"] Cons.IH[of "[_]"] Cons.IH[of "[_, _]"] split: option.split)
qed

lemma some_tuples_first: "0 < n \<Longrightarrow> \<exists>ts. some_tuples (a # S) n = (a, a, a) # ts"
  by (cases n) (simp_all add: some_tuples_def)

lemma split_elements_no_basis: "\<not> is_with_basis A \<Longrightarrow> split_elements A [] S = S"
proof (induction S)
  case Nil
  show ?case by simp
next
  case (Cons s S)
  then show ?case
    by (simp add: split_elements_acc[of A "[_]"] split: option.split)
qed

lemma super_loop_append:
  "super_loop A st ts1 = Inr st1 \<Longrightarrow> super_loop A st (ts1 @ ts2) = super_loop A st1 ts2"
  by (induction ts1 arbitrary: st) (auto split: sum.splits)

section \<open>The algebra of the doctest, evaluated\<close>

lemma wrong_body: "jacobiator (super_body wrong_algebra gen_a gen_a gen_a 1 1 st) = [((0, 0), (- 3, 0))]"
  by (simp add: super_body_def Let_def wrong_algebra_def wrong_bracket_def gen_a_def
      bracket_left_def bracket_right_def dict_of_items_def build_jac1_def build_jac2_def build_jac3_def
      jac2_add_def sub_items_def sub_items_sgn_def nonzero_items_def dict_get_def binomial_coeff_def
      zsmul_def zero_prod_def)

lemma wrong_body_bba_plain:
  "jac1 (plain_body wrong_algebra gen_b gen_b gen_a st) = [((0, 0), 0)]"
  by (simp add: super_body_def plain_body_def Let_def wrong_algebra_def wrong_bracket_def gen_a_def gen_b_def
      bracket_left_def bracket_right_def dict_of_items_def build_jac1_def build_jac2_def build_jac3_def
      jac2_add_def sub_items_def sub_items_sgn_def nonzero_items_def dict_get_def binomial_coeff_def
      zsmul_def zero_prod_def)

lemma wrong_body_bba_super:
  "jac1 (super_body wrong_algebra gen_b gen_b gen_a 0 0 st) = [((0, 0), 0)]"
  by (simp add: super_body_def plain_body_def Let_def wrong_algebra_def wrong_bracket_def gen_a_def gen_b_def
      bracket_left_def bracket_right_def dict_of_items_def build_jac1_def build_jac2_def build_jac3_def
      jac2_add_def sub_items_def sub_items_sgn_def nonzero_items_def dict_get_def binomial_coeff_def
      zsmul_def zero_prod_def)

lemma wrong_parity:
  "is_even_odd wrong_algebra gen_a = Some 1" "is_even_odd wrong_algebra gen_b = Some 0"
  "is_even_odd wrong_algebra (1, 1) = None"
  by (simp_all add: wrong_algebra_def gen_a_def gen_b_def)

section \<open>The assertion on the jacobiator\<close>

text \<open>
  Claim C2. For a sampled triple the check passes exactly when every value of the final
  accumulator \<^verbatim>\<open>jac1\<close> (after the two subtraction loops) is the zero element, and it fails
  with the assertion error exactly when the dictionary of the nonzero entries is not empty;
  the error carries that dictionary. This holds for the plain method, and for the super
  method on a triple whose first two elements have a parity.
\<close>

theorem check_succeeds_iff_zero:
  "((\<exists>st'. plain_step A st (x, y, z) = Inr st') \<longleftrightarrow>
      (\<forall>(k, v) \<in> set (jac1 (plain_body A x y z st)). v = 0))
   \<and> (plain_step A st (x, y, z) = Inl e \<longleftrightarrow>
      nonzero_items (jac1 (plain_body A x y z st)) \<noteq> [] \<and>
      e = AssertionError (nonzero_items (jac1 (plain_body A x y z st))))
   \<and> (is_even_odd A x = Some px \<and> is_even_odd A y = Some py \<longrightarrow>
       ((\<exists>st'. super_step A st (x, y, z) = Inr st') \<longleftrightarrow>
          (\<forall>(k, v) \<in> set (jac1 (super_body A x y z px py st)). v = 0))
       \<and> (super_step A st (x, y, z) = Inl e \<longleftrightarrow>
          nonzero_items (jac1 (super_body A x y z px py st)) \<noteq> [] \<and>
          e = AssertionError (nonzero_items (jac1 (super_body A x y z px py st)))))"
  unfolding nonzero_items_empty[symmetric]
  by (auto simp: plain_step_def super_step_def Let_def assertDictEqual_empty_def
      jacobiator_plain_body jacobiator_super_body)

theorem check_succeeds_iff_zero_witness:
  "is_even_odd wrong_algebra gen_b = Some 0
   \<and> jac1 (plain_body wrong_algebra gen_b gen_b gen_a fresh_locals) = [((0, 0), 0)]
   \<and> (\<exists>st'. plain_step wrong_algebra fresh_locals (gen_b, gen_b, gen_a) = Inr st')
   \<and> (\<exists>st'. super_step wrong_algebra fresh_locals (gen_b, gen_b, gen_a) = Inr st')"
  using check_succeeds_iff_zero [of wrong_algebra fresh_locals gen_b gen_b gen_a "ValueError" 0 0]
  by (simp add: wrong_parity wrong_body_bba_plain wrong_body_bba_super)

section \<open>Splitting the elements that have no parity\<close>

text \<open>
  Claim C7. In the super method, a sample element whose parity query raises is, when the
  algebra has a basis, replaced in the sample by its even component followed by its odd
  component; every other element is kept as it is, in its place.
\<close>

theorem split_elements_splits:
  "split_elements A [] S =
     concat (map (\<lambda>s. if is_even_odd A s = None \<and> is_with_basis A
                       then [even_component A s, odd_component A s] else [s]) S)"
proof (induction S)
  case Nil
  show ?case by simp
next
  case (Cons s S)
  show ?case
    using Cons.IH by (simp add: split_elements_acc[of A "[_]"] split_elements_acc[of A "[_, _]"] split: option.split)
qed

theorem split_elements_splits_witness:
  "split_elements wrong_algebra [] [gen_a, (1, 1), gen_b] = [gen_a, (0, 1), (1, 0), gen_b]"
  using split_elements_splits [of wrong_algebra "[gen_a, (1, 1), gen_b]"]
  by (simp add: wrong_parity) (simp add: wrong_algebra_def)

text \<open>
  Claim C10, as amended. In the super method, when the algebra has no basis an element
  whose parity query raises stays in the sample; a triple that has it in first or second
  place, the places whose parity the loop body asks for, ends the check with that
  \<^verbatim>\<open>ValueError\<close> before any bracket is computed, so not with an assertion on the jacobiator.
  This is the outcome of the whole check when the triples before it pass, and when the
  element is the first of the sample and at least one triple is drawn.
\<close>

theorem nonhomogeneous_without_basis:
  assumes "\<not> is_with_basis A" and "is_even_odd A s = None"
  shows "split_elements A [] S = S
    \<and> super_step A st (s, y, z) = Inl ValueError
    \<and> super_step A st (x, s, z) = Inl ValueError
    \<and> (super_loop A st ts1 = Inr st1 \<and> (x' = s \<or> y' = s) \<longrightarrow>
         super_loop A st (ts1 @ (x', y', z') # ts2) = Inl ValueError)
    \<and> (0 < max_runs \<longrightarrow> super_test_jacobi A (s # S) max_runs = Inl ValueError)"
proof (intro conjI impI)
  show "split_elements A [] S = S" by (rule split_elements_no_basis[OF assms(1)])
  show a: "super_step A st (s, y, z) = Inl ValueError" for st y z
    by (simp add: super_step_def assms(2))
  show b: "super_step A st (x, s, z) = Inl ValueError" for st x z
    by (simp add: super_step_def assms(2) split: option.split)
  show "super_loop A st (ts1 @ (x', y', z') # ts2) = Inl ValueError"
    if "super_loop A st ts1 = Inr st1 \<and> (x' = s \<or> y' = s)"
    using that a b by (auto simp: super_loop_append)
  show "super_test_jacobi A (s # S) max_runs = Inl ValueError" if "0 < max_runs"
  proof -
    from some_tuples_first[OF that, of s S] obtain ts where ts: "some_tuples (s # S) max_runs = (s, s, s) # ts"
      by blast
    have se: "split_elements A [] (s # S) = s # S"
      by (rule split_elements_no_basis[OF assms(1)])
    show ?thesis
      unfolding super_test_jacobi_def Let_def se ts by (simp add: a)
  qed
qed

theorem nonhomogeneous_without_basis_witness:
  "\<not> is_with_basis (wrong_algebra\<lparr>is_with_basis := False\<rparr>)
   \<and> is_even_odd (wrong_algebra\<lparr>is_with_basis := False\<rparr>) (1, 1) = None
   \<and> split_elements (wrong_algebra\<lparr>is_with_basis := False\<rparr>) [] [(1, 1), gen_a] = [(1, 1), gen_a]
   \<and> super_loop (wrong_algebra\<lparr>is_with_basis := False\<rparr>) fresh_locals [] = Inr fresh_locals
   \<and> super_loop (wrong_algebra\<lparr>is_with_basis := False\<rparr>) fresh_locals [(gen_a, (1, 1), gen_b)] = Inl ValueError
   \<and> (0::nat) < 5
   \<and> super_test_jacobi (wrong_algebra\<lparr>is_with_basis := False\<rparr>) [(1, 1), gen_a] 5 = Inl ValueError"
  using nonhomogeneous_without_basis [of "wrong_algebra\<lparr>is_with_basis := False\<rparr>" "(1, 1)"
      "[gen_a]" fresh_locals gen_a gen_b gen_a "[]" fresh_locals gen_a "(1, 1)" gen_b "[]" 5]
  by (simp add: wrong_algebra_def)

lemma no_basis_eval:
  "jacobiator (super_body (wrong_algebra\<lparr>is_with_basis := False\<rparr>) gen_a gen_a gen_a 1 1 st) =
     [((0, 0), (- 3, 0))]"
  "jacobiator (super_body (wrong_algebra\<lparr>is_with_basis := False\<rparr>) gen_b gen_b gen_b 0 0 st) = []"
  "jacobiator (super_body (wrong_algebra\<lparr>is_with_basis := False\<rparr>) gen_b gen_b (1, 1) 0 0 st) = []"
  by (simp_all add: super_body_def Let_def wrong_algebra_def wrong_bracket_def gen_a_def gen_b_def
      bracket_left_def bracket_right_def dict_of_items_def build_jac1_def build_jac2_def build_jac3_def
      jac2_add_def sub_items_def sub_items_sgn_def nonzero_items_def dict_get_def binomial_coeff_def
      zsmul_def zero_prod_def)

lemma no_basis_parity:
  "is_even_odd (wrong_algebra\<lparr>is_with_basis := False\<rparr>) gen_a = Some 1"
  "is_even_odd (wrong_algebra\<lparr>is_with_basis := False\<rparr>) gen_b = Some 0"
  "is_even_odd (wrong_algebra\<lparr>is_with_basis := False\<rparr>) (1, 1) = None"
  "\<not> is_with_basis (wrong_algebra\<lparr>is_with_basis := False\<rparr>)"
  by (simp_all add: wrong_algebra_def gen_a_def gen_b_def)

text \<open>
  Claim C10, as stated, fails: the element being kept does not make the check end with the
  parity error. In the doctest's algebra taken without a basis, the sample \<open>[a, a + b]\<close>
  ends with the assertion error of the triple \<open>(a, a, a)\<close>, which comes before every triple
  that asks for the parity of \<open>a + b\<close>; and the sample \<open>[b, a + b]\<close> with two triples drawn
  passes, since \<open>a + b\<close> occurs in them in third place only.
\<close>

theorem nonhomogeneous_without_basis_counterexample:
  "\<not> is_with_basis (wrong_algebra\<lparr>is_with_basis := False\<rparr>)
   \<and> is_even_odd (wrong_algebra\<lparr>is_with_basis := False\<rparr>) (1, 1) = None
   \<and> split_elements (wrong_algebra\<lparr>is_with_basis := False\<rparr>) [] [gen_a, (1, 1)] = [gen_a, (1, 1)]
   \<and> super_test_jacobi (wrong_algebra\<lparr>is_with_basis := False\<rparr>) [gen_a, (1, 1)] 8 =
       Inl (AssertionError [((0, 0), (- 3, 0))])
   \<and> split_elements (wrong_algebra\<lparr>is_with_basis := False\<rparr>) [] [gen_b, (1, 1)] = [gen_b, (1, 1)]
   \<and> super_test_jacobi (wrong_algebra\<lparr>is_with_basis := False\<rparr>) [gen_b, (1, 1)] 2 = Inr ()"
proof -
  let ?A = "wrong_algebra\<lparr>is_with_basis := False\<rparr>"
  have se: "split_elements ?A [] S = S" for S
    by (rule split_elements_no_basis) (rule no_basis_parity(4))
  have t8: "some_tuples [gen_a, (1, 1)] 8 =
      (gen_a, gen_a, gen_a) # tl (some_tuples [gen_a, (1, 1)] 8)"
    by (simp add: some_tuples_def)
  have t2: "some_tuples [gen_b, (1, 1)] 2 = [(gen_b, gen_b, gen_b), (gen_b, gen_b, (1, 1))]"
    by (simp add: some_tuples_def)
  have r8: "super_test_jacobi ?A [gen_a, (1, 1)] 8 = Inl (AssertionError [((0, 0), (- 3, 0))])"
    unfolding super_test_jacobi_def Let_def se
    by (subst t8) (simp add: super_step_def wrong_parity no_basis_parity no_basis_eval assertDictEqual_empty_def)
  have r2: "super_test_jacobi ?A [gen_b, (1, 1)] 2 = Inr ()"
    unfolding super_test_jacobi_def Let_def se t2
    by (simp add: super_step_def wrong_parity no_basis_parity no_basis_eval assertDictEqual_empty_def)
  from no_basis_parity(3,4) se r8 r2 show ?thesis by (intro conjI)
qed

section \<open>The regression fixture\<close>

text \<open>
  Claim C3. For the inconsistent algebra of the doctest, with \<open>bracket(a, a) = {0: b}\<close>,
  \<open>bracket(b, a) = {0: a}\<close> and parity \<open>(1, 0)\<close>, the super method computes on the triple
  \<open>(a, a, a)\<close> the jacobiator \<open>{(0, 0): -3a}\<close>; this is the first triple of every sample
  that starts with \<open>a\<close>, so the check raises the assertion error with exactly that payload.
\<close>

theorem wrong_algebra_violation:
  "0 < max_runs \<Longrightarrow>
     super_test_jacobi wrong_algebra (gen_a # S) max_runs = Inl (AssertionError [((0, 0), zsmul (- 3) gen_a)])
     \<and> super_step wrong_algebra st (gen_a, gen_a, gen_a) = Inl (AssertionError [((0, 0), zsmul (- 3) gen_a)])"
proof -
  assume pos: "0 < max_runs"
  have par: "is_even_odd wrong_algebra gen_a = Some 1"
    by (simp add: wrong_algebra_def gen_a_def)
  have m3: "zsmul (- 3) gen_a = (- 3, 0)"
    by (simp add: zsmul_def gen_a_def eval_nat_numeral)
  have step: "super_step wrong_algebra st (gen_a, gen_a, gen_a) = Inl (AssertionError [((0, 0), (- 3, 0))])" for st
    by (simp add: super_step_def par wrong_body assertDictEqual_empty_def)
  have se: "split_elements wrong_algebra [] (gen_a # S) = gen_a # split_elements wrong_algebra [] S"
    by (simp add: par split_elements_acc[of _ "[_]"])
  from some_tuples_first[OF pos, of gen_a "split_elements wrong_algebra [] S"] obtain ts where
    ts: "some_tuples (gen_a # split_elements wrong_algebra [] S) max_runs = (gen_a, gen_a, gen_a) # ts"
    by blast
  have "super_test_jacobi wrong_algebra (gen_a # S) max_runs = Inl (AssertionError [((0, 0), (- 3, 0))])"
    unfolding super_test_jacobi_def Let_def se ts by (simp add: step)
  with step[of st] show ?thesis by (simp add: m3)
qed

theorem wrong_algebra_violation_witness:
  "(0::nat) < 100
   \<and> super_test_jacobi wrong_algebra [gen_a, gen_b] 100 = Inl (AssertionError [((0, 0), (- 3, 0))])"
  using wrong_algebra_violation [of 100 "[gen_b]" fresh_locals]
  by (simp add: zsmul_def gen_a_def eval_nat_numeral)

section \<open>The final accumulator, entry by entry\<close>

lemma super_body_fields:
  "sgn_var (super_body A x y z px py st) = (if px * py \<noteq> 0 then - 1 else 1)"
  "jac2 (super_body A x y z px py st) = build_jac2 (bracket_right A (bracket A x y) z)"
  "jac3 (super_body A x y z px py st) = build_jac3 (bracket_left A y (bracket A x z))"
  "jac1 (super_body A x y z px py st) =
     sub_items_sgn (if px * py \<noteq> 0 then - 1 else 1)
       (sub_items (build_jac1 (bracket_left A x (bracket A y z)))
          (build_jac2 (bracket_right A (bracket A x y) z)))
       (build_jac3 (bracket_left A y (bracket A x z)))"
  by (simp_all add: super_body_def Let_def)

lemma plain_body_fields:
  "jac2 (plain_body A x y z st) = build_jac2 (bracket_right A (bracket A x y) z)"
  "jac3 (plain_body A x y z st) = build_jac3 (bracket_left A y (bracket A x z))"
  "jac1 (plain_body A x y z st) =
     sub_items
       (sub_items (build_jac1 (bracket_left A x (bracket A y z)))
          (build_jac2 (bracket_right A (bracket A x y) z)))
       (build_jac3 (bracket_left A y (bracket A x z)))"
  by (simp_all add: plain_body_def Let_def)

text \<open>
  Claim C4. In the super method the entry of the final accumulator at every key is the
  entry of \<^verbatim>\<open>jac1\<close> minus the entry of \<^verbatim>\<open>jac2\<close> minus \<open>sign\<close> times the entry of \<^verbatim>\<open>jac3\<close>,
  where, for parities in \<open>{0, 1}\<close>, \<open>sign\<close> is \<open>-1\<close> exactly when the product of the
  parities of \<open>x\<close> and \<open>y\<close> is \<open>1\<close> and \<open>+1\<close> otherwise; in the plain method the factor
  is always \<open>+1\<close>.
\<close>

theorem jac3_sign:
  assumes "is_even_odd A x = Some px" and "is_even_odd A y = Some py"
    and "px \<in> {0, 1}" and "py \<in> {0, 1}"
  shows "sgn_var (super_body A x y z px py st) = (if px * py = 1 then - 1 else 1)
    \<and> dict_get (jac1 (super_body A x y z px py st)) key 0 =
        dict_get (build_jac1 (bracket_left A x (bracket A y z))) key 0
        - dict_get (build_jac2 (bracket_right A (bracket A x y) z)) key 0
        - zsmul (if px * py = 1 then - 1 else 1)
            (dict_get (build_jac3 (bracket_left A y (bracket A x z))) key 0)
    \<and> dict_get (jac1 (plain_body A x y z st)) key 0 =
        dict_get (build_jac1 (bracket_left A x (bracket A y z))) key 0
        - dict_get (build_jac2 (bracket_right A (bracket A x y) z)) key 0
        - zsmul 1 (dict_get (build_jac3 (bracket_left A y (bracket A x z))) key 0)
    \<and> super_step A st (x, y, z) =
        (case assertDictEqual_empty (nonzero_items (jac1 (super_body A x y z px py st))) of
           Inl e \<Rightarrow> Inl e | Inr u \<Rightarrow> Inr (super_body A x y z px py st))"
proof -
  have sg: "(if px * py \<noteq> 0 then - 1 else 1 :: int) = (if px * py = 1 then - 1 else 1)"
    using assms(3,4) by auto
  have c1: "sgn_var (super_body A x y z px py st) = (if px * py = 1 then - 1 else 1)"
    by (simp only: super_body_fields sg)
  have c2: "dict_get (jac1 (super_body A x y z px py st)) key 0 =
        dict_get (build_jac1 (bracket_left A x (bracket A y z))) key 0
        - dict_get (build_jac2 (bracket_right A (bracket A x y) z)) key 0
        - zsmul (if px * py = 1 then - 1 else 1)
            (dict_get (build_jac3 (bracket_left A y (bracket A x z))) key 0)"
    by (simp only: super_body_fields sg sub_items_sgn_get[OF distinct_build_jac3]
        sub_items_get[OF distinct_build_jac2])
  have c3: "dict_get (jac1 (plain_body A x y z st)) key 0 =
        dict_get (build_jac1 (bracket_left A x (bracket A y z))) key 0
        - dict_get (build_jac2 (bracket_right A (bracket A x y) z)) key 0
        - zsmul 1 (dict_get (build_jac3 (bracket_left A y (bracket A x z))) key 0)"
    by (simp only: plain_body_fields zsmul_1 sub_items_get[OF distinct_build_jac3]
        sub_items_get[OF distinct_build_jac2])
  have c4: "super_step A st (x, y, z) =
        (case assertDictEqual_empty (nonzero_items (jac1 (super_body A x y z px py st))) of
           Inl e \<Rightarrow> Inl e | Inr u \<Rightarrow> Inr (super_body A x y z px py st))"
    by (simp add: super_step_def assms(1,2) Let_def jacobiator_super_body)
  from c1 c2 c3 c4 show ?thesis by (intro conjI)
qed

theorem jac3_sign_witness:
  "is_even_odd wrong_algebra gen_a = Some 1 \<and> (1 :: int) \<in> {0, 1}
   \<and> sgn_var (super_body wrong_algebra gen_a gen_a gen_a 1 1 fresh_locals) = - 1
   \<and> dict_get (jac1 (super_body wrong_algebra gen_a gen_a gen_a 1 1 fresh_locals)) (0, 0) 0 = (- 3, 0)
   \<and> dict_get (jac1 (plain_body wrong_algebra gen_a gen_a gen_a fresh_locals)) (0, 0) 0 = (- 1, 0)"
  using jac3_sign [where A = wrong_algebra and x = gen_a and y = gen_a and z = gen_a
      and px = 1 and py = 1 and st = fresh_locals and key = "(0, 0)"]
  by (simp add: super_body_def plain_body_def Let_def wrong_algebra_def wrong_bracket_def gen_a_def gen_b_def
      bracket_left_def bracket_right_def dict_of_items_def build_jac1_def build_jac2_def build_jac3_def
      jac2_add_def sub_items_def sub_items_sgn_def nonzero_items_def dict_get_def binomial_coeff_def
      zsmul_def zero_prod_def)

section \<open>The index conventions of \<^verbatim>\<open>jac1\<close> and \<^verbatim>\<open>jac3\<close>\<close>

lemma items_keys:
  "fst ` set (concat (map (\<lambda>(k, br). map (\<lambda>(j, v). (f k j, v)) br) b)) \<subseteq>
     {f k j | k j. k \<in> fst ` set b}"
  by (induction b) force+

lemma items_head_lookup:
  assumes inj2: "\<And>k j k' j'. f k j = f k' j' \<Longrightarrow> k = k' \<and> j = j'"
  shows "map_of (map (\<lambda>(j, v). (f k0 j, v)) br) (f k j) = (if k = k0 then map_of br j else None)"
  by (induction br) (auto dest: inj2)

lemma items_lookup:
  assumes inj2: "\<And>k j k' j'. f k j = f k' j' \<Longrightarrow> k = k' \<and> j = j'"
  shows "distinct (map fst b) \<Longrightarrow>
    map_of (concat (map (\<lambda>(k, br). map (\<lambda>(j, v). (f k j, v)) br) b)) (f k j) =
      (case map_of b k of None \<Rightarrow> None | Some br \<Rightarrow> map_of br j)"
proof (induction b)
  case Nil
  show ?case by simp
next
  case (Cons p b)
  obtain k0 br0 where p: "p = (k0, br0)" by (cases p)
  from Cons.prems have fresh: "k0 \<notin> fst ` set b" and d: "distinct (map fst b)"
    unfolding p by auto
  from fresh have none: "map_of b k0 = None"
    by (simp add: map_of_eq_None_iff)
  show ?case
    unfolding p using Cons.IH[OF d] none
    by (auto simp: map_add_def items_head_lookup[of f, OF inj2] split: option.splits)
qed

lemma items_distinct:
  assumes inj2: "\<And>k j k' j'. f k j = f k' j' \<Longrightarrow> k = k' \<and> j = j'"
  shows "distinct (map fst b) \<Longrightarrow> \<forall>(k, br) \<in> set b. distinct (map fst br) \<Longrightarrow>
    distinct (map fst (concat (map (\<lambda>(k, br). map (\<lambda>(j, v). (f k j, v)) br) b)))"
proof (induction b)
  case Nil
  show ?case by simp
next
  case (Cons p b)
  obtain k0 br0 where p: "p = (k0, br0)" by (cases p)
  from Cons.prems have fresh: "k0 \<notin> fst ` set b" and d: "distinct (map fst b)"
    and d0: "distinct (map fst br0)" and ds: "\<forall>(k, br) \<in> set b. distinct (map fst br)"
    unfolding p by auto
  have hd: "map fst (map (\<lambda>(j, v). (f k0 j, v)) br0) = map (f k0) (map fst br0)"
    by (induction br0) auto
  have "inj_on (f k0) (set (map fst br0))"
    by (rule inj_onI) (auto dest: inj2)
  then have dh: "distinct (map (f k0) (map fst br0))"
    by (subst distinct_map) (simp add: d0)
  have disj: "set (map (f k0) (map fst br0)) \<inter>
      set (map fst (concat (map (\<lambda>(k, br). map (\<lambda>(j, v). (f k j, v)) br) b))) = {}"
  proof -
    have False
      if a: "q \<in> set (map (f k0) (map fst br0))"
        and bq: "q \<in> set (map fst (concat (map (\<lambda>(k, br). map (\<lambda>(j, v). (f k j, v)) br) b)))" for q
    proof -
      from a obtain j0 where q0: "q = f k0 j0" by auto
      from bq have "q \<in> fst ` set (concat (map (\<lambda>(k, br). map (\<lambda>(j, v). (f k j, v)) br) b))"
        by (simp only: set_map)
      with items_keys[of f b] obtain k j' where q1: "q = f k j'" and kb: "k \<in> fst ` set b"
        by blast
      from q0 q1 have "f k0 j0 = f k j'" by simp
      from inj2[OF this] kb fresh show False by simp
    qed
    then show ?thesis by blast
  qed
  have eq: "map fst (concat (map (\<lambda>(k, br). map (\<lambda>(j, v). (f k j, v)) br) ((k0, br0) # b))) =
      map (f k0) (map fst br0) @ map fst (concat (map (\<lambda>(k, br). map (\<lambda>(j, v). (f k j, v)) br) b))"
    by (simp only: list.map concat.simps map_append case_prod_conv hd)
  show ?case
    unfolding p eq by (simp only: distinct_append) (intro conjI dh Cons.IH[OF d ds] disj)
qed

text \<open>
  Claim C5. For a dictionary \<open>b\<close> of dictionaries (each key once), \<^verbatim>\<open>jac1\<close> built from \<open>b\<close>
  holds the value \<open>v\<close> of the entry \<open>j\<close> of \<open>b[k]\<close> at the key \<open>(j, k)\<close>, and \<^verbatim>\<open>jac3\<close>
  built from \<open>b\<close> holds it at the swapped key \<open>(k, j)\<close>; they hold nothing else: each is
  the list of exactly these entries, every one stored once.
\<close>

theorem jac1_jac3_index_convention:
  assumes "distinct (map fst b)" and "\<forall>(k, br) \<in> set b. distinct (map fst br)"
  shows "map_of (build_jac1 b) (j, k) = (case map_of b k of None \<Rightarrow> None | Some br \<Rightarrow> map_of br j)
    \<and> map_of (build_jac3 b) (k, j) = (case map_of b k of None \<Rightarrow> None | Some br \<Rightarrow> map_of br j)
    \<and> build_jac1 b = concat (map (\<lambda>(k, br). map (\<lambda>(j, v). ((j, k), v)) br) b)
    \<and> build_jac3 b = concat (map (\<lambda>(k, br). map (\<lambda>(j, v). ((k, j), v)) br) b)"
proof -
  have e1: "build_jac1 b = concat (map (\<lambda>(k, br). map (\<lambda>(j, v). ((j, k), v)) br) b)"
    unfolding build_jac1_def
    by (rule dict_of_items_id) (rule items_distinct[of "\<lambda>k j. (j, k)", OF _ assms], simp)
  have e3: "build_jac3 b = concat (map (\<lambda>(k, br). map (\<lambda>(j, v). ((k, j), v)) br) b)"
    unfolding build_jac3_def
    by (rule dict_of_items_id) (rule items_distinct[of "\<lambda>k j. (k, j)", OF _ assms], simp)
  have l1: "map_of (build_jac1 b) (j, k) = (case map_of b k of None \<Rightarrow> None | Some br \<Rightarrow> map_of br j)"
    unfolding e1 using items_lookup[of "\<lambda>k j. (j, k)" b k j, OF _ assms(1)] by simp
  have l3: "map_of (build_jac3 b) (k, j) = (case map_of b k of None \<Rightarrow> None | Some br \<Rightarrow> map_of br j)"
    unfolding e3 using items_lookup[of "\<lambda>k j. (k, j)" b k j, OF _ assms(1)] by simp
  from l1 l3 e1 e3 show ?thesis by blast
qed

theorem jac1_jac3_index_convention_witness:
  "distinct (map fst [(0 :: nat, [(1 :: nat, 5 :: int)]), (2, [(0, 7)])])
   \<and> map_of (build_jac1 [(0, [(1, 5 :: int)]), (2, [(0, 7)])]) (1, 0) = Some 5
   \<and> map_of (build_jac3 [(0, [(1, 5 :: int)]), (2, [(0, 7)])]) (0, 1) = Some 5
   \<and> build_jac1 [(0, [(1, 5 :: int)]), (2, [(0, 7)])] = [((1, 0), 5), ((0, 2), 7)]
   \<and> build_jac3 [(0, [(1, 5 :: int)]), (2, [(0, 7)])] = [((0, 1), 5), ((2, 0), 7)]"
  using jac1_jac3_index_convention [of "[(0, [(1, 5 :: int)]), (2, [(0, 7)])]" 1 0]
  by simp

section \<open>The super method against the plain method\<close>

lemma super_body_plain:
  "px * py = 0 \<Longrightarrow> super_body A x y z px py st = (plain_body A x y z st)\<lparr>sgn_var := 1\<rparr>"
  by (cases st) (auto simp: super_body_def plain_body_def Let_def sub_items_sgn_1)

lemma step_outcome_super:
  "is_even_odd A x = Some px \<Longrightarrow> is_even_odd A y = Some py \<Longrightarrow>
   map_sum id jacobiator (super_step A st (x, y, z)) =
     (if jacobiator (super_body A x y z px py st) = [] then Inr []
      else Inl (AssertionError (jacobiator (super_body A x y z px py st))))"
  by (simp add: super_step_def Let_def assertDictEqual_empty_def)

lemma step_outcome_plain:
  "map_sum id jacobiator (plain_step A st (x, y, z)) =
     (if jacobiator (plain_body A x y z st) = [] then Inr []
      else Inl (AssertionError (jacobiator (plain_body A x y z st))))"
  by (simp add: plain_step_def Let_def assertDictEqual_empty_def)

text \<open>
  Claim C9. For a triple whose \<open>x\<close> and \<open>y\<close> are not both odd (the product of their
  parities is \<open>0\<close>), the super method sets the sign to \<open>+1\<close> and computes the same final
  accumulator and the same jacobiator as the plain method from the same brackets, and the
  two steps end alike: both pass, or both fail with the same payload.
\<close>

theorem super_agrees_with_plain:
  assumes "is_even_odd A x = Some px" and "is_even_odd A y = Some py" and "px * py = 0"
  shows "sgn_var (super_body A x y z px py st) = 1
    \<and> jac1 (super_body A x y z px py st) = jac1 (plain_body A x y z st)
    \<and> jacobiator (super_body A x y z px py st) = jacobiator (plain_body A x y z st)
    \<and> map_sum id jacobiator (super_step A st (x, y, z)) =
        map_sum id jacobiator (plain_step A st (x, y, z))"
  unfolding step_outcome_super[OF assms(1,2)] step_outcome_plain super_body_plain[OF assms(3)]
  by simp

theorem super_agrees_with_plain_witness:
  "is_even_odd wrong_algebra gen_b = Some 0 \<and> (0 :: int) * 0 = 0
   \<and> jacobiator (super_body wrong_algebra gen_b gen_b gen_a 0 0 fresh_locals) =
       jacobiator (plain_body wrong_algebra gen_b gen_b gen_a fresh_locals)
   \<and> jac1 (super_body wrong_algebra gen_b gen_b gen_a 0 0 fresh_locals) = [((0, 0), 0)]"
  using super_agrees_with_plain [where A = wrong_algebra and x = gen_b and y = gen_b and z = gen_a
      and px = 0 and py = 0 and st = fresh_locals]
  by (simp add: wrong_parity wrong_body_bba_plain)

section \<open>No state is carried from one triple to the next\<close>

lemma super_body_indep: "super_body A x y z px py st = super_body A x y z px py st'"
  by (cases st, cases st') (simp add: super_body_def Let_def)

lemma plain_body_indep:
  "plain_body A x y z st = (plain_body A x y z st')\<lparr>sgn_var := sgn_var st\<rparr>"
  by (cases st, cases st') (simp add: plain_body_def Let_def)

lemma plain_jacobiator_indep:
  "jacobiator (plain_body A x y z st) = jacobiator (plain_body A x y z st')"
  using plain_body_indep[of A x y z st st'] by simp

lemma super_step_indep: "super_step A st t = super_step A st' t"
  by (cases t) (simp add: super_step_def super_body_indep[of A _ _ _ _ _ st st'] split: option.split)

lemma plain_step_err: "(plain_step A st t = Inl e) = (plain_step A st' t = Inl e)"
  by (cases t) (simp add: plain_step_def Let_def assertDictEqual_empty_def
      plain_jacobiator_indep[of A _ _ _ st st'])

lemma plain_loop_indep:
  "map_sum id (\<lambda>u. ()) (plain_loop A st ts) = map_sum id (\<lambda>u. ()) (plain_loop A st' ts)"
proof (induction ts arbitrary: st st')
  case Nil
  show ?case by simp
next
  case (Cons t ts)
  show ?case
  proof (cases "plain_step A st t")
    case (Inl e)
    with plain_step_err[of A st t e st'] have "plain_step A st' t = Inl e" by simp
    with Inl show ?thesis by simp
  next
    case (Inr s)
    show ?thesis
    proof (cases "plain_step A st' t")
      case (Inl e)
      with plain_step_err[of A st t e st'] Inr show ?thesis by simp
    next
      case r: (Inr s')
      show ?thesis using Inr r Cons.IH[of s s'] by simp
    qed
  qed
qed

lemma super_loop_indep:
  "map_sum id (\<lambda>u. ()) (super_loop A st ts) = map_sum id (\<lambda>u. ()) (super_loop A st' ts)"
  by (cases ts) (simp_all add: super_step_indep[of A st _ st'])

text \<open>
  Claim C8. The check is deterministic and has no hidden state: the jacobiator computed for
  a triple depends only on the algebra and the triple, not on what the local variables held
  before (every variable is assigned before it is read), and so the outcome of the loop
  over a list of triples is the same from any two initial contents of the variables, as in
  a second run after a first.
\<close>

theorem no_hidden_state:
  "jacobiator (plain_body A x y z st) = jacobiator (plain_body A x y z st')
   \<and> jacobiator (super_body A x y z px py st) = jacobiator (super_body A x y z px py st')
   \<and> map_sum id (\<lambda>u. ()) (plain_loop A st ts) = map_sum id (\<lambda>u. ()) (plain_loop A st' ts)
   \<and> map_sum id (\<lambda>u. ()) (super_loop A st ts) = map_sum id (\<lambda>u. ()) (super_loop A st' ts)"
  using plain_jacobiator_indep[of A x y z st st'] super_body_indep[of A x y z px py st st']
    plain_loop_indep[of A st ts st'] super_loop_indep[of A st ts st']
  by simp

theorem no_hidden_state_witness:
  "jacobiator (super_body wrong_algebra gen_a gen_a gen_a 1 1
       (super_body wrong_algebra gen_b gen_b gen_a 0 0 fresh_locals)) = [((0, 0), (- 3, 0))]
   \<and> jacobiator (super_body wrong_algebra gen_a gen_a gen_a 1 1 fresh_locals) = [((0, 0), (- 3, 0))]"
  using no_hidden_state [where A = wrong_algebra and x = gen_a and y = gen_a and z = gen_a
      and px = 1 and py = 1 and st = "super_body wrong_algebra gen_b gen_b gen_a 0 0 fresh_locals"
      and st' = fresh_locals and ts = "[]"]
  by (simp add: wrong_body)

section \<open>Flipping the parities of \<open>x\<close> and \<open>y\<close>\<close>

lemma super_body_bracket:
  "bracket A' = bracket A \<Longrightarrow> super_body A' x y z px py st = super_body A x y z px py st"
  by (simp add: super_body_def bracket_left_def bracket_right_def)

lemma distinct_final_super: "distinct (map fst (jac1 (super_body A x y z px py st)))"
  unfolding super_body_fields
  by (intro distinct_sub_items_sgn distinct_sub_items distinct_build_jac1)

text \<open>
  Claim C6, as amended. Take a triple \<open>(x, y, z)\<close> and keep all brackets fixed. If \<^verbatim>\<open>jac3\<close>
  has an entry \<open>v\<close> with \<open>v + v \<noteq> 0\<close>, then changing the parities of \<open>x\<close> and \<open>y\<close> from
  \<open>(0, 0)\<close> to \<open>(1, 1)\<close> flips the sign applied to \<^verbatim>\<open>jac3\<close> from \<open>+1\<close> to \<open>-1\<close> and gives a
  different jacobiator, hence a different outcome of the step.
\<close>

theorem jac3_sign_flip:
  assumes "bracket A' = bracket A"
    and "is_even_odd A x = Some 0" and "is_even_odd A y = Some 0"
    and "is_even_odd A' x = Some 1" and "is_even_odd A' y = Some 1"
    and "v = dict_get (build_jac3 (bracket_left A y (bracket A x z))) key 0" and "v + v \<noteq> 0"
  shows "sgn_var (super_body A x y z 0 0 st) = 1
    \<and> sgn_var (super_body A' x y z 1 1 st) = - 1
    \<and> jacobiator (super_body A x y z 0 0 st) \<noteq> jacobiator (super_body A' x y z 1 1 st)
    \<and> map_sum id jacobiator (super_step A st (x, y, z)) \<noteq>
        map_sum id jacobiator (super_step A' st (x, y, z))"
proof -
  let ?B0 = "super_body A x y z 0 0 st" and ?B1 = "super_body A x y z 1 1 st"
  have b1: "super_body A' x y z 1 1 st = ?B1" by (rule super_body_bracket[OF assms(1)])
  have g0: "dict_get (jac1 ?B0) key 0 =
      dict_get (build_jac1 (bracket_left A x (bracket A y z))) key 0
      - dict_get (build_jac2 (bracket_right A (bracket A x y) z)) key 0 - v"
    unfolding super_body_fields assms(6)
    by (simp add: sub_items_sgn_get[OF distinct_build_jac3] sub_items_get[OF distinct_build_jac2] zsmul_1)
  have g1: "dict_get (jac1 ?B1) key 0 =
      dict_get (build_jac1 (bracket_left A x (bracket A y z))) key 0
      - dict_get (build_jac2 (bracket_right A (bracket A x y) z)) key 0 + v"
    unfolding super_body_fields assms(6)
    by (simp add: sub_items_sgn_get[OF distinct_build_jac3] sub_items_get[OF distinct_build_jac2] zsmul_m1)
  have ne: "jacobiator ?B0 \<noteq> jacobiator ?B1"
  proof
    assume "jacobiator ?B0 = jacobiator ?B1"
    then have "dict_get (nonzero_items (jac1 ?B0)) key 0 = dict_get (nonzero_items (jac1 ?B1)) key 0"
      by (simp add: jacobiator_super_body)
    then have "dict_get (jac1 ?B0) key 0 = dict_get (jac1 ?B1) key 0"
      by (simp only: nonzero_items_get[OF distinct_final_super])
    with g0 g1 have "- v = v" by simp
    then have "v + v = 0" by (metis add.right_inverse add.commute)
    with assms(7) show False by simp
  qed
  have s0: "sgn_var ?B0 = 1" and s1: "sgn_var ?B1 = - 1"
    by (simp_all add: super_body_fields)
  have steps: "map_sum id jacobiator (super_step A st (x, y, z)) \<noteq>
      map_sum id jacobiator (super_step A' st (x, y, z))"
    unfolding step_outcome_super[OF assms(2,3)] step_outcome_super[OF assms(4,5)] b1
    using ne by auto
  from s0 s1 ne steps show ?thesis unfolding b1 by (intro conjI)
qed

theorem jac3_sign_flip_witness:
  "bracket wrong_algebra = bracket (wrong_algebra\<lparr>is_even_odd := \<lambda>u. Some 0\<rparr>)
   \<and> is_even_odd (wrong_algebra\<lparr>is_even_odd := \<lambda>u. Some 0\<rparr>) gen_a = Some 0
   \<and> is_even_odd wrong_algebra gen_a = Some 1
   \<and> dict_get (build_jac3 (bracket_left wrong_algebra gen_a (bracket wrong_algebra gen_a gen_a))) (0, 0) 0
       = (- 1, 0)
   \<and> (- 1, 0) + (- 1, 0) \<noteq> (0 :: rat \<times> rat)
   \<and> jacobiator (super_body (wrong_algebra\<lparr>is_even_odd := \<lambda>u. Some 0\<rparr>) gen_a gen_a gen_a 0 0 fresh_locals)
       \<noteq> jacobiator (super_body wrong_algebra gen_a gen_a gen_a 1 1 fresh_locals)"
  using jac3_sign_flip [where A = "wrong_algebra\<lparr>is_even_odd := \<lambda>u. Some 0\<rparr>" and A' = wrong_algebra
      and x = gen_a and y = gen_a and z = gen_a and key = "(0, 0)" and v = "(- 1, 0)"
      and st = fresh_locals]
  by (simp add: wrong_parity wrong_algebra_def wrong_bracket_def gen_a_def bracket_left_def
      dict_of_items_def build_jac3_def dict_get_def zero_prod_def)

lemma char2_eval:
  "jacobiator (super_body (char2_algebra p) 1 1 1 0 0 fresh_locals) = [((0, 0), 1)]"
  "jacobiator (super_body (char2_algebra p) 1 1 1 1 1 fresh_locals) = [((0, 0), 1)]"
  "dict_get (build_jac3 (bracket_left (char2_algebra p) 1 (bracket (char2_algebra p) 1 1))) (0, 0) 0 = 1"
  by (simp_all add: super_body_def Let_def char2_algebra_def
      bracket_left_def bracket_right_def dict_of_items_def build_jac1_def build_jac2_def build_jac3_def
      jac2_add_def sub_items_def sub_items_sgn_def nonzero_items_def dict_get_def binomial_coeff_def
      zsmul_def)

text \<open>
  Claim C6, as stated, fails where the elements have 2-torsion: over the field with two
  elements \<open>-v = v\<close>, so the flipped sign leaves the jacobiator as it was although the
  entry of \<^verbatim>\<open>jac3\<close> is not zero.
\<close>

theorem jac3_sign_flip_counterexample:
  "bracket (char2_algebra 1) = bracket (char2_algebra 0)
   \<and> is_even_odd (char2_algebra 0) 1 = Some 0 \<and> is_even_odd (char2_algebra 1) 1 = Some 1
   \<and> dict_get (build_jac3 (bracket_left (char2_algebra 0) 1 (bracket (char2_algebra 0) 1 1))) (0, 0) 0 = 1
   \<and> (1 :: 1 word) \<noteq> 0
   \<and> sgn_var (super_body (char2_algebra 0) 1 1 1 0 0 fresh_locals) = 1
   \<and> sgn_var (super_body (char2_algebra 1) 1 1 1 1 1 fresh_locals) = - 1
   \<and> jacobiator (super_body (char2_algebra 0) 1 1 1 0 0 fresh_locals) =
       jacobiator (super_body (char2_algebra 1) 1 1 1 1 1 fresh_locals)
   \<and> super_step (char2_algebra 0) fresh_locals (1, 1, 1) = Inl (AssertionError [((0, 0), 1)])
   \<and> super_step (char2_algebra 1) fresh_locals (1, 1, 1) = Inl (AssertionError [((0, 0), 1)])"
proof -
  have p: "is_even_odd (char2_algebra p) u = Some p" for p u
    by (simp add: char2_algebra_def)
  have b: "bracket (char2_algebra 1) = bracket (char2_algebra 0)"
    by (simp add: char2_algebra_def)
  show ?thesis
    by (simp add: p b char2_eval super_body_fields super_step_def Let_def assertDictEqual_empty_def)
qed

end
